theory Spec2Isabelle
  imports Main "HOL-Library.Char_ord" "HOL-Library.List_Lexorder" "HOL-Library.Sublist"
begin

section \<open>Strings\<close>

text \<open>
  Python strings are modelled as \<^typ>\<open>string\<close>, one \<^typ>\<open>char\<close> per code point, read
  as Latin-1 (code points 0 to 255). That covers every literal of the program that the
  properties below depend on; the first letter of the status that the reminders count
  is U+00C0. The order on strings is the lexicographic order on code points, which is what Python's \<open><\<close> on
  \<open>str\<close> and SQLite's BINARY collation compute.
\<close>

definition lower_char :: "char \<Rightarrow> char" where
  \<comment> \<open>\<open>str.lower\<close> on one Latin-1 code point: A-Z and U+00C0..U+00DE except U+00D7.\<close>
  "lower_char c =
     (let n = (of_char c :: nat)
      in if (65 \<le> n \<and> n \<le> 90) \<or> (192 \<le> n \<and> n \<le> 222 \<and> n \<noteq> 215)
         then char_of (n + 32) else c)"

definition lower :: "string \<Rightarrow> string" where
  "lower s = map lower_char s"

definition is_space :: "char \<Rightarrow> bool" where
  \<comment> \<open>\<open>str.isspace\<close> on Latin-1: TAB..CR, FS..US, SPACE, NEL, NBSP.\<close>
  "is_space c =
     (let n = (of_char c :: nat)
      in (9 \<le> n \<and> n \<le> 13) \<or> (28 \<le> n \<and> n \<le> 32) \<or> n = 133 \<or> n = 160)"

definition strip :: "string \<Rightarrow> string" where
  "strip s = rev (dropWhile is_space (rev (dropWhile is_space s)))"

fun join :: "string \<Rightarrow> string list \<Rightarrow> string" where
  "join sep [] = []"
| "join sep [x] = x"
| "join sep (x # y # ys) = x @ sep @ join sep (y # ys)"

definition or_empty :: "string option \<Rightarrow> string" where
  \<comment> \<open>\<open>v or ""\<close>\<close>
  "or_empty v = (case v of None \<Rightarrow> [] | Some s \<Rightarrow> s)"

definition or_None :: "string option \<Rightarrow> string option" where
  \<comment> \<open>\<open>v or None\<close>: the empty string is falsy.\<close>
  "or_None v = (case v of None \<Rightarrow> None | Some s \<Rightarrow> if s = [] then None else Some s)"

definition truthy :: "string option \<Rightarrow> bool" where
  \<comment> \<open>\<open>if v:\<close> for \<open>v : str | None\<close>\<close>
  "truthy v = (case v of None \<Rightarrow> False | Some s \<Rightarrow> s \<noteq> [])"

section \<open>The table \<open>candidatures\<close>\<close>

text \<open>
  The nine columns that the dialog and the CSV import write are the dictionary \<open>d\<close> that
  \<open>get_data\<close> returns and \<open>import_csv\<close> builds; a row of the table created by
  \<open>ensure_database\<close> adds \<open>id\<close> and \<open>created_at\<close>. Every column but \<open>id\<close> has TEXT
  affinity and holds a text or NULL (\<open>None\<close>); \<open>titre\<close> is declared NOT NULL, which the
  statements below enforce. The column \<open>id\<close> is named \<open>id_val\<close>, after the variable the
  source reads it into; \<open>structure\<close> and \<open>notes\<close> carry a suffix.
\<close>

record payload =
  numero :: "string option"
  titre :: "string option"
  structure_c :: "string option"
  date_limite :: "string option"
  priorite :: "string option"
  canal_envoi :: "string option"
  statut :: "string option"
  date_envoi :: "string option"
  notes_c :: "string option"

record candidature = payload +
  id_val :: int
  created_at :: "string option"

definition A_postuler :: string where
  \<comment> \<open>\<open>STATUTS[0]\<close>, with U+00C0 as its first code point\<close>
  "A_postuler = CHR 0xC0 # '' postuler''"

section \<open>CandidatureFilterProxy\<close>

text \<open>
  \<open>QRegularExpression\<close> is a library outside the repository. The object is modelled by the
  pattern text it was built from and the result of compiling it: \<open>None\<close> when the pattern
  is not a valid regular expression, otherwise the function that tells whether the
  (case-insensitive) expression has a match somewhere in a subject string. The compiler
  is a parameter \<open>rx\<close> of \<open>set_search_text\<close>.
\<close>

type_synonym regex_engine = "string \<Rightarrow> (string \<Rightarrow> bool) option"

record qregex =
  pattern :: string
  compiled :: "(string \<Rightarrow> bool) option"

definition QRegularExpression :: "regex_engine \<Rightarrow> string \<Rightarrow> qregex" where
  "QRegularExpression rx text = \<lparr>pattern = text, compiled = rx text\<rparr>"

definition hasMatch :: "qregex \<Rightarrow> string \<Rightarrow> bool" where
  \<comment> \<open>\<open>re.match(hay).hasMatch()\<close>: matching an invalid expression yields no match.\<close>
  "hasMatch re hay = (case compiled re of None \<Rightarrow> False | Some m \<Rightarrow> m hay)"

record filter_proxy =
  search_regex :: qregex
  filter_statut :: "string option"
  filter_priorite :: "string option"
  max_deadline :: "string option"

definition init_proxy :: "regex_engine \<Rightarrow> filter_proxy" where
  "init_proxy rx =
     \<lparr>search_regex = QRegularExpression rx [], filter_statut = None,
      filter_priorite = None, max_deadline = None\<rparr>"

definition set_search_text :: "regex_engine \<Rightarrow> string \<Rightarrow> filter_proxy \<Rightarrow> filter_proxy" where
  "set_search_text rx text p = p\<lparr>search_regex := QRegularExpression rx text\<rparr>"

definition set_filter_statut :: "string option \<Rightarrow> filter_proxy \<Rightarrow> filter_proxy" where
  "set_filter_statut s p =
     p\<lparr>filter_statut := (if truthy s \<and> s \<noteq> Some ''(Tous)'' then s else None)\<rparr>"

definition set_filter_priorite :: "string option \<Rightarrow> filter_proxy \<Rightarrow> filter_proxy" where
  "set_filter_priorite s p =
     p\<lparr>filter_priorite := (if truthy s \<and> s \<noteq> Some ''(Toutes)'' then s else None)\<rparr>"

definition set_max_deadline :: "string option \<Rightarrow> filter_proxy \<Rightarrow> filter_proxy" where
  "set_max_deadline date_str p = p\<lparr>max_deadline := date_str\<rparr>"

definition data :: "candidature \<Rightarrow> (candidature \<Rightarrow> string option) \<Rightarrow> string" where
  \<comment> \<open>the inner \<open>data(col_name)\<close> of \<open>filterAcceptsRow\<close>\<close>
  "data R col = lower (or_empty (col R))"

definition hay :: "candidature \<Rightarrow> string" where
  "hay R = join '' '' [data R numero, data R titre, data R structure_c,
                        data R priorite, data R canal_envoi, data R statut, data R notes_c]"

definition filterAcceptsRow :: "filter_proxy \<Rightarrow> candidature \<Rightarrow> bool" where
  \<comment> \<open>The row \<open>source_row\<close> of the source model is passed as the record \<open>R\<close>; the proxy
      has a source model from \<open>MainWindow.__init__\<close> on.\<close>
  "filterAcceptsRow p R =
     (if pattern (search_regex p) \<noteq> [] \<and> \<not> hasMatch (search_regex p) (hay R) then False
      else if (case filter_statut p of None \<Rightarrow> False
               | Some s \<Rightarrow> data R statut \<noteq> lower s) then False
      else if (case filter_priorite p of None \<Rightarrow> False
               | Some s \<Rightarrow> data R priorite \<noteq> lower s) then False
      else if (case max_deadline p of None \<Rightarrow> False
               | Some m \<Rightarrow> m \<noteq> [] \<and>
                   (case date_limite R of None \<Rightarrow> False
                    | Some dl_val \<Rightarrow> dl_val \<noteq> [] \<and> dl_val > m)) then False
      else True)"

subsection \<open>A regular-expression engine for a fragment of the PCRE syntax\<close>

text \<open>
  An instance of \<^typ>\<open>regex_engine\<close> on which the filter can be evaluated. It reads
  patterns built from literal characters, \<open>.\<close>, \<open>|\<close>, groups \<open>( )\<close> and one postfix \<open>*\<close>
  per item, with the meaning they have for \<open>QRegularExpression\<close> under
  \<open>CaseInsensitiveOption\<close>: a literal matches both cases of its letter, \<open>.\<close> matches any
  character but the line feed, an unbalanced parenthesis or a \<open>*\<close> with nothing to
  repeat makes the pattern invalid. It returns \<open>None\<close> as well on the metacharacters it
  does not read (backslash, \<open>^\<close>, \<open>$\<close>, \<open>[\<close>, \<open>?\<close>, \<open>+\<close>, \<open>{\<close>), so it is to be evaluated on
  patterns of the fragment only.
\<close>

datatype rexp = Zero | Eps | Chr char | Dot | Seq rexp rexp | Alt rexp rexp | Star rexp

fun nullable :: "rexp \<Rightarrow> bool" where
  "nullable Zero = False"
| "nullable Eps = True"
| "nullable (Chr c) = False"
| "nullable Dot = False"
| "nullable (Seq r s) = (nullable r \<and> nullable s)"
| "nullable (Alt r s) = (nullable r \<or> nullable s)"
| "nullable (Star r) = True"

fun deriv :: "char \<Rightarrow> rexp \<Rightarrow> rexp" where
  "deriv h Zero = Zero"
| "deriv h Eps = Zero"
| "deriv h (Chr c) = (if lower_char c = lower_char h then Eps else Zero)"
| "deriv h Dot = (if h = CHR 0x0A then Zero else Eps)"
| "deriv h (Seq r s) =
     (if nullable r then Alt (Seq (deriv h r) s) (deriv h s) else Seq (deriv h r) s)"
| "deriv h (Alt r s) = Alt (deriv h r) (deriv h s)"
| "deriv h (Star r) = Seq (deriv h r) (Star r)"

fun match_prefix :: "rexp \<Rightarrow> string \<Rightarrow> bool" where
  \<comment> \<open>some prefix of the subject is matched by the expression\<close>
  "match_prefix r [] = nullable r"
| "match_prefix r (h # hs) = (nullable r \<or> match_prefix (deriv h r) hs)"

fun has_match :: "rexp \<Rightarrow> string \<Rightarrow> bool" where
  \<comment> \<open>the expression matches at some position of the subject\<close>
  "has_match r [] = nullable r"
| "has_match r (h # hs) = (match_prefix r (h # hs) \<or> has_match r hs)"

text \<open>
  The parser keeps, for the group being read, the alternatives already closed by \<open>|\<close>, the
  items of the current alternative (last one first) and whether the last item already
  carries a \<open>*\<close>; the enclosing groups wait on a stack.
\<close>

type_synonym frame = "rexp list \<times> rexp list \<times> bool"

definition mk_seq :: "rexp list \<Rightarrow> rexp" where
  "mk_seq items = foldl (\<lambda>acc r. Seq r acc) Eps items"

definition close_frame :: "frame \<Rightarrow> rexp" where
  "close_frame f = (case f of (alts, items, q) \<Rightarrow> foldr Alt alts (mk_seq items))"

definition unread_meta :: "char \<Rightarrow> bool" where
  "unread_meta c = (c = CHR 0x5C \<or> c \<in> set ''^$[?+{'')"

fun parse :: "string \<Rightarrow> frame \<Rightarrow> frame list \<Rightarrow> rexp option" where
  "parse [] cur stk = (case stk of [] \<Rightarrow> Some (close_frame cur) | _ # _ \<Rightarrow> None)"
| "parse (c # cs) (alts, items, q) stk =
     (if c = CHR ''('' then parse cs ([], [], False) ((alts, items, q) # stk)
      else if c = CHR '')'' then
        (case stk of [] \<Rightarrow> None
         | (alts', items', q') # stk' \<Rightarrow>
             parse cs (alts', close_frame (alts, items, q) # items', False) stk')
      else if c = CHR ''|'' then parse cs (alts @ [mk_seq items], [], False) stk
      else if c = CHR ''*'' then
        (case items of [] \<Rightarrow> None
         | r # rs \<Rightarrow> if q then None else parse cs (alts, Star r # rs, True) stk)
      else if c = CHR ''.'' then parse cs (alts, Dot # items, False) stk
      else if unread_meta c then None
      else parse cs (alts, Chr c # items, False) stk)"

definition rx_fragment :: regex_engine where
  "rx_fragment text =
     (case parse text ([], [], False) [] of None \<Rightarrow> None | Some r \<Rightarrow> Some (has_match r))"

definition plain_text :: "string \<Rightarrow> bool" where
  \<comment> \<open>a pattern without any metacharacter\<close>
  "plain_text text = list_all (\<lambda>c. c \<notin> set ''()|*.'' \<and> \<not> unread_meta c) text"

definition lit :: "string \<Rightarrow> rexp" where
  \<comment> \<open>the expression of a plain pattern: its characters in sequence\<close>
  "lit text = foldr (\<lambda>c r. Seq (Chr c) r) text Eps"

section \<open>Calendar dates\<close>

text \<open>
  \<open>datetime.today()\<close> is a parameter \<open>today\<close> of the functions that read the clock; only
  its calendar date is used. \<open>today + timedelta(days=n)\<close> is \<open>add_days today n\<close>, which
  raises \<open>OverflowError\<close> past 9999-12-31 as Python does. \<open>strftime\<close> is
  \<open>strftime(DATE_FMT)\<close> with the year on four digits, which is what every platform
  prints from the year 1000 on.
\<close>

record date =
  year :: nat
  month :: nat
  day :: nat

definition is_leap :: "nat \<Rightarrow> bool" where
  "is_leap y = (y mod 4 = 0 \<and> (y mod 100 \<noteq> 0 \<or> y mod 400 = 0))"

definition days_in_month :: "nat \<Rightarrow> nat \<Rightarrow> nat" where
  "days_in_month y m =
     (if m = 2 then (if is_leap y then 29 else 28)
      else if m = 4 \<or> m = 6 \<or> m = 9 \<or> m = 11 then 30 else 31)"

definition valid_date :: "date \<Rightarrow> bool" where
  "valid_date d =
     (1 \<le> year d \<and> year d \<le> 9999 \<and> 1 \<le> month d \<and> month d \<le> 12
      \<and> 1 \<le> day d \<and> day d \<le> days_in_month (year d) (month d))"

definition date_le :: "date \<Rightarrow> date \<Rightarrow> bool" where
  \<comment> \<open>the chronological order of calendar dates\<close>
  "date_le a b =
     (year a < year b \<or> (year a = year b \<and>
        (month a < month b \<or> (month a = month b \<and> day a \<le> day b))))"

definition next_day :: "date \<Rightarrow> date option" where
  "next_day d =
     (if day d < days_in_month (year d) (month d) then Some (d\<lparr>day := day d + 1\<rparr>)
      else if month d < 12 then Some (d\<lparr>month := month d + 1, day := 1\<rparr>)
      else if year d < 9999 then Some \<lparr>year = year d + 1, month = 1, day = 1\<rparr>
      else None)"

fun add_days :: "date \<Rightarrow> nat \<Rightarrow> date option" where
  "add_days d 0 = Some d"
| "add_days d (Suc n) = (case next_day d of None \<Rightarrow> None | Some d' \<Rightarrow> add_days d' n)"

definition digit :: "nat \<Rightarrow> char" where
  "digit n = char_of (48 + n)"

definition pad2 :: "nat \<Rightarrow> string" where
  "pad2 n = [digit (n div 10 mod 10), digit (n mod 10)]"

definition pad4 :: "nat \<Rightarrow> string" where
  "pad4 n = pad2 (n div 100) @ pad2 (n mod 100)"

definition strftime :: "date \<Rightarrow> string" where
  "strftime d = pad4 (year d) @ ''-'' @ pad2 (month d) @ ''-'' @ pad2 (day d)"

datatype py_error = OverflowError

section \<open>The SQLite file\<close>

text \<open>
  The database file holds the table \<open>candidatures\<close> or not (\<open>None\<close>): \<open>ensure_database\<close>
  creates it only when the file did not exist. A table is its rows in \<open>rowid\<close> order and
  the counter that AUTOINCREMENT keeps in \<open>sqlite_sequence\<close>. Each statement returns
  what \<open>QSqlQuery.exec\<close> returns and the file after it; a statement that fails changes
  nothing.
\<close>

record table_c =
  rows :: "candidature list"
  seq :: int

type_synonym database = "table_c option"

definition ensure_database :: "database option \<Rightarrow> database" where
  \<comment> \<open>the argument is the file found at \<open>path\<close>, \<open>None\<close> when there is none\<close>
  "ensure_database file =
     (case file of None \<Rightarrow> Some \<lparr>rows = [], seq = 0\<rparr> | Some d \<Rightarrow> d)"

definition records :: "database \<Rightarrow> candidature list" where
  "records d = (case d of None \<Rightarrow> [] | Some t \<Rightarrow> rows t)"

datatype sql_value = Integer int | Text string

definition sqlite_space :: "char \<Rightarrow> bool" where
  "sqlite_space c = (let n = (of_char c :: nat) in (9 \<le> n \<and> n \<le> 13) \<or> n = 32)"

definition is_digit :: "char \<Rightarrow> bool" where
  "is_digit c = (let n = (of_char c :: nat) in 48 \<le> n \<and> n \<le> 57)"

definition digits_val :: "string \<Rightarrow> nat" where
  "digits_val ds = foldl (\<lambda>a c. 10 * a + (of_char c - 48)) 0 ds"

definition exponent_of :: "string \<Rightarrow> int option" where
  \<comment> \<open>the exponent part of a numeric literal: nothing, or \<open>e\<close> or \<open>E\<close>, an optional sign
      and at least one digit\<close>
  "exponent_of r =
     (case r of [] \<Rightarrow> Some 0
      | c # s \<Rightarrow>
          if c = CHR ''e'' \<or> c = CHR ''E'' then
            (let neg = (s \<noteq> [] \<and> hd s = CHR ''-'');
                 ds = (if s \<noteq> [] \<and> (hd s = CHR ''-'' \<or> hd s = CHR ''+'') then tl s else s)
             in if ds \<noteq> [] \<and> list_all is_digit ds
                then Some (if neg then - int (digits_val ds) else int (digits_val ds))
                else None)
          else None)"

definition int_of_text :: "string \<Rightarrow> int option" where
  \<comment> \<open>Numeric affinity applied to a bound text before it is compared with the INTEGER
      column. A well-formed numeric literal (surrounding white space, an optional sign,
      digits with an optional fraction, an optional exponent, at least one digit before
      the exponent) is read as a number; the result is that number when it is an
      integer, as \<open>7\<close>, \<open>7.0\<close> or \<open>70e-1\<close>, and \<open>None\<close> when it is not or when the text is
      not a numeric literal: then the text equals no id. The value is taken exactly,
      where SQLite rounds a literal of more than 15 significant digits to a double.\<close>
  "int_of_text t =
     (let u = rev (dropWhile sqlite_space (rev (dropWhile sqlite_space t)));
          neg = (u \<noteq> [] \<and> hd u = CHR ''-'');
          body = (if u \<noteq> [] \<and> (hd u = CHR ''-'' \<or> hd u = CHR ''+'') then tl u else u);
          ip = takeWhile is_digit body;
          r1 = dropWhile is_digit body;
          dot = (r1 \<noteq> [] \<and> hd r1 = CHR ''.'');
          fp = (if dot then takeWhile is_digit (tl r1) else []);
          r2 = (if dot then dropWhile is_digit (tl r1) else r1)
      in if ip = [] \<and> fp = [] then None
         else (case exponent_of r2 of None \<Rightarrow> None
               | Some e \<Rightarrow>
                   let m = int (digits_val (ip @ fp));
                       k = e - int (length fp)
                   in if k \<ge> 0
                      then Some (if neg then - (m * 10 ^ nat k) else m * 10 ^ nat k)
                      else if m mod 10 ^ nat (- k) = 0
                      then Some (if neg then - (m div 10 ^ nat (- k))
                                 else m div 10 ^ nat (- k))
                      else None))"

definition id_eq :: "sql_value \<Rightarrow> int \<Rightarrow> bool" where
  \<comment> \<open>\<open>WHERE id = :id\<close>\<close>
  "id_eq v i = (case v of Integer n \<Rightarrow> n = i
                | Text t \<Rightarrow> (case int_of_text t of None \<Rightarrow> False | Some n \<Rightarrow> n = i))"

definition set_columns :: "payload \<Rightarrow> candidature \<Rightarrow> candidature" where
  \<comment> \<open>the SET clause of both UPDATE statements: nine columns, not \<open>id\<close>, not \<open>created_at\<close>\<close>
  "set_columns d r =
     \<lparr>numero = numero d, titre = titre d, structure_c = structure_c d,
      date_limite = date_limite d, priorite = priorite d, canal_envoi = canal_envoi d,
      statut = statut d, date_envoi = date_envoi d, notes_c = notes_c d,
      id_val = id_val r, created_at = created_at r\<rparr>"

definition sql_update :: "payload \<Rightarrow> sql_value \<Rightarrow> database \<Rightarrow> bool \<times> database" where
  \<comment> \<open>\<open>UPDATE candidatures SET ... WHERE id=:id\<close>. The statement succeeds when no row has
      the id; it fails when the table is missing, or when a row has the id and
      \<open>titre\<close> would become NULL.\<close>
  "sql_update d v db =
     (case db of None \<Rightarrow> (False, db)
      | Some t \<Rightarrow>
          if titre d = None \<and> list_ex (\<lambda>r. id_eq v (id_val r)) (rows t) then (False, db)
          else (True, Some (t\<lparr>rows := map (\<lambda>r. if id_eq v (id_val r) then set_columns d r else r)
                                           (rows t)\<rparr>)))"

definition max_rowid :: int where
  "max_rowid = 9223372036854775807"

definition sql_insert :: "string \<Rightarrow> payload \<Rightarrow> database \<Rightarrow> bool \<times> database" where
  \<comment> \<open>\<open>INSERT INTO candidatures (numero, ..., notes) VALUES (...)\<close> at the time \<open>now\<close> of
      CURRENT_TIMESTAMP. The new id is one more than the largest id the table ever held.\<close>
  "sql_insert now d db =
     (case db of None \<Rightarrow> (False, db)
      | Some t \<Rightarrow>
          let top = fold max (map id_val (rows t)) (seq t)
          in if titre d = None \<or> top \<ge> max_rowid then (False, db)
             else (True, Some \<lparr>rows = rows t @
                      [\<lparr>numero = numero d, titre = titre d, structure_c = structure_c d,
                        date_limite = date_limite d, priorite = priorite d,
                        canal_envoi = canal_envoi d, statut = statut d,
                        date_envoi = date_envoi d, notes_c = notes_c d,
                        id_val = top + 1, created_at = Some now\<rparr>],
                    seq = top + 1\<rparr>))"

definition sql_delete :: "int \<Rightarrow> database \<Rightarrow> bool \<times> database" where
  \<comment> \<open>\<open>DELETE FROM candidatures WHERE id = n\<close>\<close>
  "sql_delete n db =
     (case db of None \<Rightarrow> (False, db)
      | Some t \<Rightarrow> (True, Some (t\<lparr>rows := filter (\<lambda>r. id_val r \<noteq> n) (rows t)\<rparr>)))"

definition due_row :: "string \<Rightarrow> string \<Rightarrow> candidature \<Rightarrow> bool" where
  \<comment> \<open>the WHERE clause of the count: \<open>statut = '\<dots> postuler' AND date_limite IS NOT NULL
      AND date_limite BETWEEN :d1 AND :d2\<close>, texts compared code point by code point\<close>
  "due_row d1 d2 r =
     (statut r = Some A_postuler \<and>
      (case date_limite r of None \<Rightarrow> False | Some dl \<Rightarrow> d1 \<le> dl \<and> dl \<le> d2))"

definition sql_count_due :: "string \<Rightarrow> string \<Rightarrow> database \<Rightarrow> nat option" where
  \<comment> \<open>\<open>None\<close> when \<open>exec\<close> returns false\<close>
  "sql_count_due d1 d2 db =
     (case db of None \<Rightarrow> None | Some t \<Rightarrow> Some (length (filter (due_row d1 d2) (rows t))))"

section \<open>CandidatureDialog\<close>

text \<open>
  What the widgets of the dialog hold when the user presses OK. A \<open>QDateEdit\<close> holds a
  date or an invalid \<open>QDate\<close> (\<open>None\<close>); \<open>toString("yyyy-MM-dd")\<close> is \<open>strftime\<close>.
\<close>

record dialog_form =
  f_numero :: string
  f_titre :: string
  f_structure :: string
  f_date_limite :: "date option"
  f_priorite :: string
  f_canal :: string
  f_statut :: string
  f_date_envoi :: "date option"
  f_notes :: string

definition strip_or_None :: "string \<Rightarrow> string option" where
  \<comment> \<open>\<open>text.strip() or None\<close>\<close>
  "strip_or_None s = or_None (Some (strip s))"

definition qdate_to_str :: "date option \<Rightarrow> string option" where
  "qdate_to_str w = (case w of None \<Rightarrow> None | Some d \<Rightarrow> Some (strftime d))"

definition get_data :: "dialog_form \<Rightarrow> payload option" where
  \<comment> \<open>\<open>None\<close> comes with the warning "Le champ Titre est obligatoire."\<close>
  "get_data f =
     (let t = strip (f_titre f)
      in if t = [] then None
         else Some \<lparr>numero = strip_or_None (f_numero f), titre = Some t,
                     structure_c = strip_or_None (f_structure f),
                     date_limite = qdate_to_str (f_date_limite f),
                     priorite = Some (f_priorite f), canal_envoi = Some (f_canal f),
                     statut = Some (f_statut f),
                     date_envoi = qdate_to_str (f_date_envoi f),
                     notes_c = strip_or_None (f_notes f)\<rparr>)"

datatype dialog_result = Rejected | Accepted dialog_form

section \<open>CSV files\<close>

text \<open>
  A CSV file is the list of its rows, each a list of cells; writing it with
  \<open>csv.writer\<close> and reading it back with \<open>csv.reader\<close> is taken to return the same cells.
  \<open>csv.writer\<close> writes \<open>None\<close> as the empty cell and an integer in decimal;
  \<open>csv.DictReader\<close> takes the first row as the keys, skips empty rows and makes one
  dictionary per row.
\<close>

type_synonym csv_file = "string list list"
type_synonym csv_row = "string \<rightharpoonup> string"

fun str_nat :: "nat \<Rightarrow> string" where
  "str_nat n = (if n < 10 then [digit n] else str_nat (n div 10) @ [digit (n mod 10)])"

definition str_int :: "int \<Rightarrow> string" where
  \<comment> \<open>\<open>str(i)\<close>\<close>
  "str_int i = (if i < 0 then CHR ''-'' # str_nat (nat (- i)) else str_nat (nat i))"

definition headers :: "string list" where
  "headers = [''id'', ''numero'', ''titre'', ''structure'', ''date_limite'', ''priorite'',
              ''canal_envoi'', ''statut'', ''date_envoi'', ''notes'', ''created_at'']"

definition csv_cells :: "candidature \<Rightarrow> string list" where
  \<comment> \<open>the list \<open>row\<close> of \<open>export_csv\<close>, as \<open>writer.writerow\<close> writes it\<close>
  "csv_cells r =
     [str_int (id_val r), or_empty (numero r), or_empty (titre r), or_empty (structure_c r),
      or_empty (date_limite r), or_empty (priorite r), or_empty (canal_envoi r),
      or_empty (statut r), or_empty (date_envoi r), or_empty (notes_c r),
      or_empty (created_at r)]"

definition dict_of :: "string list \<Rightarrow> string list \<Rightarrow> csv_row" where
  \<comment> \<open>\<open>dict(zip(fieldnames, cells))\<close>: a later duplicate of a key wins\<close>
  "dict_of ks vs = fold (\<lambda>kv m. m(fst kv \<mapsto> snd kv)) (zip ks vs) Map.empty"

definition DictReader :: "csv_file \<Rightarrow> csv_row list" where
  "DictReader f =
     (case f of [] \<Rightarrow> []
      | ks # rest \<Rightarrow> map (dict_of ks) (filter (\<lambda>cells. cells \<noteq> []) rest))"

section \<open>MainWindow\<close>

text \<open>
  The state of the window: the database file, the rows that \<open>QSqlTableModel\<close> has
  loaded since the last \<open>select()\<close>, the filter proxy, the reminder window in days, the label
  \<open>lbl_alerts\<close> and the message boxes and status messages shown so far. The label is
  either empty or the text that shows the count \<open>n\<close> and \<open>remind_days\<close>.
\<close>

datatype alert = Quiet | Alerting nat nat

datatype notice =
    Titre_obligatoire | Erreur_insertion | Erreur_mise_a_jour | Erreur_suppression
  | Id_introuvable | Selectionnez_modifier | Selectionnez_supprimer
  | Candidature_ajoutee | Candidature_modifiee | Candidature_supprimee
  | Exporte | Import_termine

record main_window =
  db :: database
  model :: "candidature list"
  proxy :: filter_proxy
  remind_days :: nat
  lbl_alerts :: alert
  shown :: "notice list"

definition first_fetch :: "candidature list \<Rightarrow> candidature list" where
  \<comment> \<open>what \<open>QSqlTableModel\<close> holds after \<open>select()\<close>: the SQLite driver does not tell the
      size of a result and the model loads its first 256 rows; the view asks for more
      rows when it is scrolled, which no code of the repository does\<close>
  "first_fetch rs = take 256 rs"

definition init_window :: "regex_engine \<Rightarrow> database \<Rightarrow> main_window" where
  \<comment> \<open>\<open>MainWindow.__init__\<close> on the opened database\<close>
  "init_window rx d =
     \<lparr>db = d, model = first_fetch (records d), proxy = init_proxy rx, remind_days = 3,
      lbl_alerts = Quiet, shown = []\<rparr>"

definition select :: "main_window \<Rightarrow> main_window" where
  \<comment> \<open>\<open>self.model.select()\<close>\<close>
  "select w = w\<lparr>model := first_fetch (records (db w))\<rparr>"

definition notify :: "notice \<Rightarrow> main_window \<Rightarrow> main_window" where
  "notify n w = w\<lparr>shown := shown w @ [n]\<rparr>"

definition insert_row :: "string \<Rightarrow> payload \<Rightarrow> main_window \<Rightarrow> main_window" where
  \<comment> \<open>\<open>_insert_row\<close>\<close>
  "insert_row now d w =
     (case sql_insert now d (db w) of
        (True, db') \<Rightarrow> w\<lparr>db := db'\<rparr>
      | (False, _) \<Rightarrow> notify Erreur_insertion w)"

definition update_row :: "nat \<Rightarrow> payload \<Rightarrow> main_window \<Rightarrow> main_window" where
  \<comment> \<open>\<open>_update_row\<close>: the model gives no id for a row it does not have, and \<open>not id_val\<close>
      holds for the id 0 as well\<close>
  "update_row row d w =
     (if row \<ge> length (model w) then notify Id_introuvable w
      else let id_val = id_val (model w ! row)
           in if id_val = 0 then notify Id_introuvable w
              else (case sql_update d (Integer id_val) (db w) of
                      (True, db') \<Rightarrow> w\<lparr>db := db'\<rparr>
                    | (False, _) \<Rightarrow> notify Erreur_mise_a_jour w))"

definition add_record :: "dialog_result \<Rightarrow> string \<Rightarrow> main_window \<Rightarrow> main_window" where
  "add_record dlg now w =
     (case dlg of Rejected \<Rightarrow> w
      | Accepted f \<Rightarrow>
          (case get_data f of None \<Rightarrow> notify Titre_obligatoire w
           | Some d \<Rightarrow> notify Candidature_ajoutee (select (insert_row now d w))))"

definition edit_selected :: "nat option \<Rightarrow> dialog_result \<Rightarrow> main_window \<Rightarrow> main_window" where
  \<comment> \<open>\<open>sel\<close> is the source row of the current index, \<open>None\<close> when the index is invalid\<close>
  "edit_selected sel dlg w =
     (case sel of None \<Rightarrow> notify Selectionnez_modifier w
      | Some row \<Rightarrow>
          if row \<ge> length (model w) then notify Selectionnez_modifier w
          else (case dlg of Rejected \<Rightarrow> w
                | Accepted f \<Rightarrow>
                    (case get_data f of None \<Rightarrow> notify Titre_obligatoire w
                     | Some d \<Rightarrow> notify Candidature_modifiee (select (update_row row d w)))))"

definition delete_selected :: "nat option \<Rightarrow> bool \<Rightarrow> main_window \<Rightarrow> main_window" where
  \<comment> \<open>\<open>confirm\<close> is the answer Yes to "Confirmer la suppression ?"\<close>
  "delete_selected sel confirm w =
     (case sel of None \<Rightarrow> notify Selectionnez_supprimer w
      | Some row \<Rightarrow>
          if row \<ge> length (model w) then notify Selectionnez_supprimer w
          else if \<not> confirm then w
          else (case sql_delete (id_val (model w ! row)) (db w) of
                  (True, db') \<Rightarrow> notify Candidature_supprimee (select (w\<lparr>db := db'\<rparr>))
                | (False, _) \<Rightarrow> notify Erreur_suppression w))"

definition export_csv :: "bool \<Rightarrow> main_window \<Rightarrow> csv_file option \<times> main_window" where
  \<comment> \<open>\<open>chosen\<close>: the save dialog returned a path; the result is the file written there\<close>
  "export_csv chosen w =
     (if \<not> chosen then (None, w)
      else (Some (headers # map csv_cells (model w)), notify Exporte w))"

definition row_payload :: "csv_row \<Rightarrow> payload" where
  \<comment> \<open>the dictionary \<open>payload\<close> of \<open>import_csv\<close>\<close>
  "row_payload row =
     \<lparr>numero = or_None (row ''numero''), titre = or_None (row ''titre''),
      structure_c = or_None (row ''structure''), date_limite = or_None (row ''date_limite''),
      priorite = or_None (row ''priorite''), canal_envoi = or_None (row ''canal_envoi''),
      statut = or_None (row ''statut''), date_envoi = or_None (row ''date_envoi''),
      notes_c = or_None (row ''notes'')\<rparr>"

definition import_row :: "string \<Rightarrow> csv_row \<Rightarrow> main_window \<Rightarrow> main_window" where
  \<comment> \<open>the body of the loop of \<open>import_csv\<close>\<close>
  "import_row now row w =
     (let payload = row_payload row
      in case row ''id'' of
           None \<Rightarrow> insert_row now payload w
         | Some rid \<Rightarrow>
             if rid = [] then insert_row now payload w
             else (case sql_update payload (Text rid) (db w) of
                     (True, db') \<Rightarrow> w\<lparr>db := db'\<rparr>
                   | (False, _) \<Rightarrow> insert_row now payload w))"

fun import_rows :: "string \<Rightarrow> csv_row list \<Rightarrow> main_window \<Rightarrow> main_window" where
  "import_rows now [] w = w"
| "import_rows now (row # rest) w = import_rows now rest (import_row now row w)"

definition import_csv :: "csv_file option \<Rightarrow> string \<Rightarrow> main_window \<Rightarrow> main_window" where
  \<comment> \<open>the argument is the file at the path the open dialog returned, \<open>None\<close> when the
      dialog was cancelled\<close>
  "import_csv file now w =
     (case file of None \<Rightarrow> w
      | Some f \<Rightarrow> notify Import_termine (select (import_rows now (DictReader f) w)))"

subsection \<open>Reminders\<close>

definition count_deadline_within :: "nat \<Rightarrow> date \<Rightarrow> main_window \<Rightarrow> py_error + nat" where
  "count_deadline_within days today w =
     (case add_days today days of None \<Rightarrow> Inl OverflowError
      | Some limit \<Rightarrow>
          (case sql_count_due (strftime today) (strftime limit) (db w) of
             None \<Rightarrow> Inr 0
           | Some n \<Rightarrow> Inr n))"

definition update_reminders :: "date \<Rightarrow> main_window \<Rightarrow> py_error + main_window" where
  "update_reminders today w =
     (case count_deadline_within (remind_days w) today w of
        Inl e \<Rightarrow> Inl e
      | Inr n \<Rightarrow> Inr (w\<lparr>lbl_alerts := (if n > 0 then Alerting n (remind_days w) else Quiet)\<rparr>))"

definition on_remind_days_changed :: "nat \<Rightarrow> date \<Rightarrow> main_window \<Rightarrow> py_error + main_window" where
  "on_remind_days_changed days today w = update_reminders today (w\<lparr>remind_days := days\<rparr>)"

subsection \<open>The slots that the event loop calls\<close>

text \<open>
  \<open>Tick\<close> is the timeout of the 60-second timer (and of the single shot after start-up),
  connected to \<open>update_reminders\<close>; \<open>Remind_days_changed\<close> is \<open>valueChanged\<close> of the spin
  box, whose range is 0 to 60. The other events are the actions of the tool bar. Each
  event carries what the slot reads from the user and the clock.
\<close>

datatype event =
    Tick date
  | Remind_days_changed nat date
  | Add_record dialog_result string
  | Edit_selected "nat option" dialog_result
  | Delete_selected "nat option" bool
  | Import_csv "csv_file option" string
  | Export_csv bool

fun step :: "event \<Rightarrow> main_window \<Rightarrow> py_error + main_window" where
  "step (Tick today) w = update_reminders today w"
| "step (Remind_days_changed days today) w = on_remind_days_changed days today w"
| "step (Add_record dlg now) w = Inr (add_record dlg now w)"
| "step (Edit_selected sel dlg) w = Inr (edit_selected sel dlg w)"
| "step (Delete_selected sel confirm) w = Inr (delete_selected sel confirm w)"
| "step (Import_csv file now) w = Inr (import_csv file now w)"
| "step (Export_csv chosen) w = Inr (snd (export_csv chosen w))"

definition label_current :: "date \<Rightarrow> main_window \<Rightarrow> bool" where
  \<comment> \<open>the label is what the count of this moment asks for: empty for 0, otherwise the
      text with the count and the window\<close>
  "label_current today w =
     (case count_deadline_within (remind_days w) today w of
        Inl e \<Rightarrow> False
      | Inr n \<Rightarrow> lbl_alerts w = (if n > 0 then Alerting n (remind_days w) else Quiet))"

section \<open>The count of the reminders, as the specification states it\<close>

text \<open>
  \<open>iso_date s\<close> is the calendar date that the text \<open>s\<close> denotes when \<open>s\<close> is a zero-padded
  \<open>YYYY-MM-DD\<close> text of a date that exists. \<open>due_soon_spec\<close> is the condition of the
  specification on one record: the status, a deadline that is present, and
  \<open>asOf \<le> date_limite \<le> asOf + windowDays\<close> on calendar dates, both bounds included.
\<close>

definition iso_date :: "string \<Rightarrow> date option" where
  "iso_date s =
     (let d = \<lparr>year = digits_val (take 4 s), month = digits_val (take 2 (drop 5 s)),
               day = digits_val (take 2 (drop 8 s))\<rparr>
      in if valid_date d \<and> strftime d = s then Some d else None)"

definition due_soon_spec :: "date \<Rightarrow> nat \<Rightarrow> candidature \<Rightarrow> bool" where
  "due_soon_spec asOf windowDays r =
     (statut r = Some A_postuler \<and>
      (case date_limite r of None \<Rightarrow> False
       | Some s \<Rightarrow>
           (case iso_date s of None \<Rightarrow> False
            | Some d \<Rightarrow>
                (case add_days asOf windowDays of None \<Rightarrow> False
                 | Some lim \<Rightarrow> date_le asOf d \<and> date_le d lim))))"

definition DueSoonCount :: "candidature list \<Rightarrow> nat \<Rightarrow> date \<Rightarrow> nat" where
  "DueSoonCount store windowDays asOf = length (filter (due_soon_spec asOf windowDays) store)"

definition iso_deadlines :: "candidature list \<Rightarrow> bool" where
  \<comment> \<open>every deadline that is present is an ISO date\<close>
  "iso_deadlines store =
     list_all (\<lambda>r. case date_limite r of None \<Rightarrow> True | Some s \<Rightarrow> iso_date s \<noteq> None) store"

section \<open>Conditions on the rows of a table\<close>

definition primary_key :: "candidature list \<Rightarrow> bool" where
  \<comment> \<open>\<open>id INTEGER PRIMARY KEY\<close>: no two rows share an id\<close>
  "primary_key store = distinct (map id_val store)"

definition fields_ok :: "candidature \<Rightarrow> bool" where
  \<comment> \<open>no optional text column of the row holds the empty text (each holds NULL or a
      non-empty text)\<close>
  "fields_ok r =
     (numero r \<noteq> Some [] \<and> structure_c r \<noteq> Some [] \<and> date_limite r \<noteq> Some []
      \<and> priorite r \<noteq> Some [] \<and> canal_envoi r \<noteq> Some [] \<and> statut r \<noteq> Some []
      \<and> date_envoi r \<noteq> Some [] \<and> notes_c r \<noteq> Some [])"

definition no_empty_text :: "candidature list \<Rightarrow> bool" where
  "no_empty_text store = list_all fields_ok store"

section \<open>Sample data\<close>

definition sample_row :: candidature where
  "sample_row =
     \<lparr>numero = None, titre = Some ''ABC (dev)'', structure_c = Some ''Acme'',
      date_limite = Some ''2025-02-01'', priorite = Some ''Moyenne'',
      canal_envoi = Some ''Recommandation'', statut = Some A_postuler, date_envoi = None,
      notes_c = None, id_val = 1, created_at = Some ''2025-01-01 10:00:00''\<rparr>"

definition sample_due :: candidature where
  \<comment> \<open>status \<open>A_postuler\<close>, deadline 2025-01-10\<close>
  "sample_due =
     \<lparr>numero = Some ''R-12'', titre = Some ''Analyste'', structure_c = None,
      date_limite = Some ''2025-01-10'', priorite = Some ''Moyenne'',
      canal_envoi = Some ''Email'', statut = Some A_postuler, date_envoi = None,
      notes_c = None, id_val = 1, created_at = Some ''2025-01-02 09:30:00''\<rparr>"

definition sample_sent :: candidature where
  \<comment> \<open>the same record with id 2 and the status \<open>STATUTS[1]\<close>, which ends with U+00E9\<close>
  "sample_sent = sample_due\<lparr>statut := Some (''Envoy'' @ [CHR 0xE9]), id_val := 2\<rparr>"

definition sample_window :: main_window where
  "sample_window =
     init_window rx_fragment (Some \<lparr>rows = [sample_due, sample_sent], seq = 2\<rparr>)"

definition jan8 :: date where
  "jan8 = \<lparr>year = 2025, month = 1, day = 8\<rparr>"

definition empty_window :: main_window where
  \<comment> \<open>the window at the first launch: the file is created with an empty table\<close>
  "empty_window = init_window rx_fragment (ensure_database None)"

definition csv_id7 :: csv_file where
  \<comment> \<open>one row whose \<open>id\<close> is 7\<close>
  "csv_id7 = [headers,
     [''7'', ''R-7'', ''Dev'', ''Acme'', ''2025-01-10'', ''Moyenne'', ''Email'',
      ''En attente'', [], [], []]]"

definition csv_blank_titre :: csv_file where
  \<comment> \<open>one row without \<open>id\<close> whose \<open>titre\<close> is three spaces\<close>
  "csv_blank_titre = [headers,
     [[], ''R-8'', ''   '', ''Acme'', ''2025-01-10'', ''Moyenne'', ''Email'',
      ''En attente'', [], [], []]]"

definition csv_loose_dates :: csv_file where
  \<comment> \<open>one row without \<open>id\<close>, with the counted status, whose deadline is written without
      the zero padding of the day: \<open>2025-01-1\<close>\<close>
  "csv_loose_dates = [headers,
     [[], ''R-1'', ''Dev'', ''Acme'', ''2025-01-1'', ''Moyenne'', ''Email'', A_postuler,
      [], [], []]]"

definition sample_empty_notes :: main_window where
  \<comment> \<open>a table whose only row holds the empty text in \<open>notes\<close>\<close>
  "sample_empty_notes =
     init_window rx_fragment (Some \<lparr>rows = [sample_due\<lparr>notes_c := Some []\<rparr>], seq = 1\<rparr>)"

definition noon :: string where
  "noon = ''2025-01-08 12:00:00''"

definition sample_form :: dialog_form where
  \<comment> \<open>the dialog filled with a title, the deadline 2025-01-10 and the counted status\<close>
  "sample_form =
     \<lparr>f_numero = [], f_titre = ''Analyste'', f_structure = ''Acme'',
      f_date_limite = Some \<lparr>year = 2025, month = 1, day = 10\<rparr>, f_priorite = ''Moyenne'',
      f_canal = ''Email'', f_statut = A_postuler, f_date_envoi = None, f_notes = []\<rparr>"

section \<open>Dates and their texts\<close>

text \<open>
  On dates that exist, the order of the \<open>YYYY-MM-DD\<close> texts is the order of the dates.
\<close>

lemma digit_less_iff: "i < 10 \<Longrightarrow> j < 10 \<Longrightarrow> digit i < digit j \<longleftrightarrow> i < j"
  by (simp add: digit_def less_char_def)

lemma digit_eq_iff: "i < 10 \<Longrightarrow> j < 10 \<Longrightarrow> digit i = digit j \<longleftrightarrow> i = j"
  by (simp add: digit_def)

lemma pairs_less_iff:
  fixes a b :: nat
  assumes "0 < k"
  shows "(a div k < b div k \<or> a div k = b div k \<and> a mod k < b mod k) \<longleftrightarrow> a < b"
proof -
  define ha la hb lb where "ha = a div k" and "la = a mod k" and "hb = b div k" and "lb = b mod k"
  have a: "a = k * ha + la" and b: "b = k * hb + lb"
    by (simp_all add: ha_def la_def hb_def lb_def)
  have la: "la < k" and lb: "lb < k" using assms by (simp_all add: la_def lb_def)
  have "ha < hb \<Longrightarrow> k * ha + la < k * hb + lb"
  proof -
    assume "ha < hb"
    then have "k * (ha + 1) \<le> k * hb" by (intro mult_le_mono2) simp
    then show ?thesis using la by simp
  qed
  moreover have "hb < ha \<Longrightarrow> k * hb + lb < k * ha + la"
  proof -
    assume "hb < ha"
    then have "k * (hb + 1) \<le> k * ha" by (intro mult_le_mono2) simp
    then show ?thesis using lb by simp
  qed
  ultimately have "(ha < hb \<or> ha = hb \<and> la < lb) \<longleftrightarrow> k * ha + la < k * hb + lb"
    by (metis add_less_cancel_left less_asym' linorder_neqE_nat)
  then show ?thesis
    unfolding ha_def la_def hb_def lb_def by simp
qed

lemma pad2_less_iff:
  assumes "a < 100" "b < 100"
  shows "pad2 a < pad2 b \<longleftrightarrow> a < b"
proof -
  have "a div 10 mod 10 = a div 10" "b div 10 mod 10 = b div 10" using assms by simp_all
  then show ?thesis
    using pairs_less_iff [of 10 a b]
    by (simp add: pad2_def digit_less_iff digit_eq_iff)
qed

lemma pad2_eq_iff:
  assumes "a < 100" "b < 100"
  shows "pad2 a = pad2 b \<longleftrightarrow> a = b"
  using pad2_less_iff [OF assms] pad2_less_iff [OF assms(2) assms(1)]
  by (metis less_irrefl linorder_neqE_nat)

lemma length_pad2: "length (pad2 n) = 2"
  by (simp add: pad2_def)

lemma append_less_iff:
  fixes xs ys :: "'a::linorder list"
  assumes "length xs = length ys"
  shows "xs @ us < ys @ vs \<longleftrightarrow> xs < ys \<or> xs = ys \<and> us < vs"
  using assms by (induction xs ys rule: list_induct2) auto

lemma strftime_less_iff:
  assumes "valid_date a" and "valid_date b"
  shows "strftime a < strftime b \<longleftrightarrow> date_le a b \<and> a \<noteq> b"
proof -
  have "year a < 100 * 100" "year b < 100 * 100"
    using assms by (simp_all add: valid_date_def)
  then have "year a div 100 < 100" "year b div 100 < 100"
    by (simp_all only: less_mult_imp_div_less)
  then have ya: "year a div 100 < 100" "year a mod 100 < 100"
    and yb: "year b div 100 < 100" "year b mod 100 < 100"
    by simp_all
  have ma: "month a < 100" and mb: "month b < 100" using assms by (simp_all add: valid_date_def)
  have "day a \<le> 31" "day b \<le> 31"
    using assms by (auto simp: valid_date_def days_in_month_def split: if_splits)
  then have da: "day a < 100" and db: "day b < 100" by simp_all
  have "strftime a < strftime b \<longleftrightarrow>
        (year a div 100 < year b div 100 \<or> year a div 100 = year b div 100 \<and>
          (year a mod 100 < year b mod 100 \<or> year a mod 100 = year b mod 100 \<and>
            (month a < month b \<or> month a = month b \<and> day a < day b)))"
    by (simp add: strftime_def pad4_def append_less_iff length_pad2 pad2_less_iff pad2_eq_iff ya yb ma mb da db)
  also have "\<dots> \<longleftrightarrow> (year a < year b \<or> year a = year b \<and>
            (month a < month b \<or> month a = month b \<and> day a < day b))"
  proof -
    have lt: "(year a div 100 < year b div 100 \<or> year a div 100 = year b div 100 \<and>
                 year a mod 100 < year b mod 100) \<longleftrightarrow> year a < year b"
      using pairs_less_iff [of 100 "year a" "year b"] by simp
    have eq: "(year a div 100 = year b div 100 \<and> year a mod 100 = year b mod 100)
                \<longleftrightarrow> year a = year b"
      by (metis div_mult_mod_eq)
    from lt eq show ?thesis by blast
  qed
  also have "\<dots> \<longleftrightarrow> date_le a b \<and> a \<noteq> b"
    by (cases a; cases b) (auto simp: date_le_def)
  finally show ?thesis .
qed

lemma date_le_refl: "date_le a a" by (simp add: date_le_def)

lemma date_le_trans: "date_le a b \<Longrightarrow> date_le b c \<Longrightarrow> date_le a c"
  by (auto simp: date_le_def)

lemma date_le_total: "date_le a b \<or> date_le b a"
  by (auto simp: date_le_def)

lemma strftime_le_iff:
  assumes "valid_date a" and "valid_date b"
  shows "strftime a \<le> strftime b \<longleftrightarrow> date_le a b"
proof -
  have 1: "strftime a < strftime b \<longleftrightarrow> date_le a b \<and> a \<noteq> b"
    by (rule strftime_less_iff [OF assms])
  have 2: "strftime b < strftime a \<longleftrightarrow> date_le b a \<and> b \<noteq> a"
    by (rule strftime_less_iff [OF assms(2) assms(1)])
  show ?thesis
  proof
    assume "strftime a \<le> strftime b"
    then have "\<not> strftime b < strftime a" by simp
    with 2 have "\<not> date_le b a \<or> a = b" by blast
    then show "date_le a b" using date_le_total [of a b] date_le_refl by blast
  next
    assume "date_le a b"
    then show "strftime a \<le> strftime b"
      using 1 by (cases "a = b") (simp_all add: less_imp_le)
  qed
qed

lemma days_in_month_pos: "1 \<le> days_in_month y m"
  by (simp add: days_in_month_def)

lemma next_day_valid:
  assumes "valid_date d" and "next_day d = Some d'"
  shows "valid_date d' \<and> date_le d d'"
proof -
  consider (a) "day d < days_in_month (year d) (month d)"
    | (b) "\<not> day d < days_in_month (year d) (month d)" "month d < 12"
    | (c) "\<not> day d < days_in_month (year d) (month d)" "\<not> month d < 12" "year d < 9999"
    using assms(2) by (auto simp: next_day_def split: if_splits)
  then show ?thesis
  proof cases
    case a
    with assms have "d' = d\<lparr>day := day d + 1\<rparr>" by (simp add: next_day_def)
    with a assms(1) show ?thesis by (simp add: valid_date_def date_le_def)
  next
    case b
    with assms have "d' = d\<lparr>month := month d + 1, day := 1\<rparr>" by (simp add: next_day_def)
    with b assms(1) days_in_month_pos [of "year d" "month d + 1"] show ?thesis
      by (simp add: valid_date_def date_le_def)
  next
    case c
    with assms have "d' = \<lparr>year = year d + 1, month = 1, day = 1\<rparr>"
      by (simp add: next_day_def)
    with c assms(1) days_in_month_pos [of "year d + 1" 1] show ?thesis
      by (simp add: valid_date_def date_le_def)
  qed
qed

lemma add_days_valid:
  "valid_date d \<Longrightarrow> add_days d n = Some d' \<Longrightarrow> valid_date d' \<and> date_le d d'"
proof (induction n arbitrary: d)
  case 0
  then show ?case by (simp add: date_le_refl)
next
  case (Suc n)
  then obtain e where e: "next_day d = Some e" and r: "add_days e n = Some d'"
    by (auto split: option.splits)
  from next_day_valid [OF Suc.prems(1) e] have "valid_date e" "date_le d e" by simp_all
  with Suc.IH [OF _ r] show ?case by (blast intro: date_le_trans)
qed

lemma add_days_add:
  "add_days d (m + k) = (case add_days d m of None \<Rightarrow> None | Some e \<Rightarrow> add_days e k)"
  by (induction m arbitrary: d) (auto split: option.splits)

lemma add_days_mono:
  assumes "valid_date d" and "w1 \<le> w2" and "add_days d w2 = Some l2"
  shows "\<exists>l1. add_days d w1 = Some l1 \<and> valid_date l1 \<and> date_le l1 l2"
proof -
  from assms(2) obtain k where k: "w2 = w1 + k" by (auto simp: le_iff_add)
  with assms(3) add_days_add [of d w1 k]
  obtain l1 where l1: "add_days d w1 = Some l1" and r: "add_days l1 k = Some l2"
    by (auto split: option.splits)
  from add_days_valid [OF assms(1) l1] have v: "valid_date l1" by simp
  from add_days_valid [OF v r] have "date_le l1 l2" by simp
  with l1 v show ?thesis by blast
qed

lemma iso_date_Some:
  "iso_date s = Some d \<Longrightarrow> valid_date d \<and> strftime d = s"
  by (auto simp: iso_date_def Let_def split: if_splits)

lemma due_row_spec:
  assumes t: "valid_date today" and l: "add_days today days = Some lim"
    and iso: "case date_limite r of None \<Rightarrow> True | Some s \<Rightarrow> iso_date s \<noteq> None"
  shows "due_row (strftime today) (strftime lim) r \<longleftrightarrow> due_soon_spec today days r"
proof (cases "date_limite r")
  case None
  then show ?thesis by (simp add: due_row_def due_soon_spec_def)
next
  case (Some s)
  with iso obtain d where d: "iso_date s = Some d" by auto
  from iso_date_Some [OF d] have v: "valid_date d" and s: "strftime d = s" by simp_all
  from add_days_valid [OF t l] have vl: "valid_date lim" by simp
  have "strftime today \<le> s \<longleftrightarrow> date_le today d"
    using strftime_le_iff [OF t v] s by simp
  moreover have "s \<le> strftime lim \<longleftrightarrow> date_le d lim"
    using strftime_le_iff [OF v vl] s by simp
  ultimately show ?thesis
    using Some d l by (simp add: due_row_def due_soon_spec_def)
qed

lemma length_filter_mono:
  "(\<And>x. P x \<Longrightarrow> Q x) \<Longrightarrow> length (filter P xs) \<le> length (filter Q xs)"
  by (induction xs) auto

section \<open>Decimal texts of integers\<close>

text \<open>
  The text that \<open>str\<close> makes of an id is read back as that id when SQLite compares
  it with the column \<open>id\<close>.
\<close>

declare str_nat.simps [simp del]

lemma is_digit_digit: "n < 10 \<Longrightarrow> is_digit (digit n)"
  by (simp add: is_digit_def digit_def)

lemma of_char_digit: "n < 10 \<Longrightarrow> of_char (digit n) = 48 + n"
  by (simp add: digit_def)

lemma str_nat_digits: "list_all is_digit (str_nat n) \<and> str_nat n \<noteq> []"
proof (induction n rule: str_nat.induct)
  case (1 n)
  show ?case
  proof (cases "n < 10")
    case True
    then have "str_nat n = [digit n]" by (subst str_nat.simps) simp
    with True show ?thesis by (simp add: is_digit_digit)
  next
    case False
    then have "str_nat n = str_nat (n div 10) @ [digit (n mod 10)]"
      by (subst str_nat.simps) simp
    with 1 False show ?thesis by (simp add: is_digit_digit)
  qed
qed

lemma digits_val_snoc: "digits_val (ds @ [c]) = 10 * digits_val ds + (of_char c - 48)"
  by (simp add: digits_val_def)

lemma digits_val_str_nat: "digits_val (str_nat n) = n"
proof (induction n rule: str_nat.induct)
  case (1 n)
  show ?case
  proof (cases "n < 10")
    case True
    then have "str_nat n = [digit n]" by (subst str_nat.simps) simp
    with True show ?thesis by (simp add: digits_val_def of_char_digit)
  next
    case False
    then have "str_nat n = str_nat (n div 10) @ [digit (n mod 10)]"
      by (subst str_nat.simps) simp
    with 1 False show ?thesis
      by (simp add: digits_val_snoc of_char_digit)
  qed
qed


lemma digit_not_space: "is_digit c \<Longrightarrow> \<not> sqlite_space c"
  by (simp add: is_digit_def sqlite_space_def Let_def)

lemma digit_not_sign: "is_digit c \<Longrightarrow> c \<noteq> CHR ''-'' \<and> c \<noteq> CHR ''+''"
  by (auto simp: is_digit_def)

lemma dropWhile_hd: "xs \<noteq> [] \<Longrightarrow> \<not> P (hd xs) \<Longrightarrow> dropWhile P xs = xs"
  by (cases xs) simp_all

lemma trim_unchanged:
  assumes "xs \<noteq> []" and "\<not> sqlite_space (hd xs)" and "\<not> sqlite_space (last xs)"
  shows "rev (dropWhile sqlite_space (rev (dropWhile sqlite_space xs))) = xs"
proof -
  have 1: "dropWhile sqlite_space xs = xs" using assms(1,2) by (rule dropWhile_hd)
  have "rev xs \<noteq> []" using assms(1) by simp
  moreover have "\<not> sqlite_space (hd (rev xs))" using assms(1,3) by (simp add: hd_rev)
  ultimately have 2: "dropWhile sqlite_space (rev xs) = rev xs" by (rule dropWhile_hd)
  show ?thesis by (simp only: 1 2 rev_rev_ident)
qed

lemma digits_ends:
  assumes "list_all is_digit ds" and "ds \<noteq> []"
  shows "is_digit (hd ds)" and "is_digit (last ds)"
  using assms by (simp_all add: list_all_iff)

lemma int_of_text_digits:
  assumes "list_all is_digit ds" and "ds \<noteq> []"
  shows "int_of_text ds = Some (int (digits_val ds))"
    and "int_of_text (CHR ''-'' # ds) = Some (- int (digits_val ds))"
proof -
  from digits_ends [OF assms] have h: "is_digit (hd ds)" and l: "is_digit (last ds)" .
  have t1: "rev (dropWhile sqlite_space (rev (dropWhile sqlite_space ds))) = ds"
    using assms(2) h l by (intro trim_unchanged) (simp_all add: digit_not_space)
  have "\<not> sqlite_space (CHR ''-'')" by (simp add: sqlite_space_def)
  then have t2: "rev (dropWhile sqlite_space (rev (dropWhile sqlite_space (CHR ''-'' # ds))))
                   = CHR ''-'' # ds"
    using assms(2) l by (intro trim_unchanged) (simp_all add: digit_not_space)
  from digit_not_sign [OF h] have s: "hd ds \<noteq> CHR ''-''" "hd ds \<noteq> CHR ''+''" by simp_all
  have tw: "takeWhile is_digit ds = ds" and dw: "dropWhile is_digit ds = []"
    using assms(1) by (simp_all add: list_all_iff)
  have e: "exponent_of [] = Some 0" by (simp add: exponent_of_def)
  show "int_of_text ds = Some (int (digits_val ds))"
    unfolding int_of_text_def t1 using assms(2) s by (simp add: Let_def tw dw e)
  show "int_of_text (CHR ''-'' # ds) = Some (- int (digits_val ds))"
    unfolding int_of_text_def t2 using assms(2) by (simp add: Let_def tw dw e)
qed

lemma int_of_text_str_int: "int_of_text (str_int i) = Some i"
proof -
  have d: "list_all is_digit (str_nat n)" "str_nat n \<noteq> []" for n
    using str_nat_digits by simp_all
  show ?thesis
  proof (cases "i < 0")
    case True
    then show ?thesis
      using int_of_text_digits(2) [OF d, of "nat (- i)"]
      by (simp add: str_int_def digits_val_str_nat)
  next
    case False
    then show ?thesis
      using int_of_text_digits(1) [OF d, of "nat i"]
      by (simp add: str_int_def digits_val_str_nat)
  qed
qed

lemma id_eq_str_int: "id_eq (Text (str_int i)) j \<longleftrightarrow> i = j"
  by (simp add: id_eq_def int_of_text_str_int)

lemma str_int_nonempty: "str_int i \<noteq> []"
  using str_nat_digits by (simp add: str_int_def)

section \<open>The rows that export writes, read back\<close>

lemma or_None_or_empty: "or_None (Some (or_empty v)) = (if v = Some [] then None else v)"
  by (cases v) (simp_all add: or_None_def or_empty_def)

lemma dict_of_export:
  fixes r :: candidature
  defines "row \<equiv> dict_of headers (csv_cells r)"
  shows "row ''id'' = Some (str_int (id_val r))"
    and "row ''numero'' = Some (or_empty (numero r))"
    and "row ''titre'' = Some (or_empty (titre r))"
    and "row ''structure'' = Some (or_empty (structure_c r))"
    and "row ''date_limite'' = Some (or_empty (date_limite r))"
    and "row ''priorite'' = Some (or_empty (priorite r))"
    and "row ''canal_envoi'' = Some (or_empty (canal_envoi r))"
    and "row ''statut'' = Some (or_empty (statut r))"
    and "row ''date_envoi'' = Some (or_empty (date_envoi r))"
    and "row ''notes'' = Some (or_empty (notes_c r))"
  by (simp_all add: row_def dict_of_def headers_def csv_cells_def)


lemma row_payload_export:
  "row_payload (dict_of headers (csv_cells r)) =
     \<lparr>numero = or_None (Some (or_empty (numero r))),
      titre = or_None (Some (or_empty (titre r))),
      structure_c = or_None (Some (or_empty (structure_c r))),
      date_limite = or_None (Some (or_empty (date_limite r))),
      priorite = or_None (Some (or_empty (priorite r))),
      canal_envoi = or_None (Some (or_empty (canal_envoi r))),
      statut = or_None (Some (or_empty (statut r))),
      date_envoi = or_None (Some (or_empty (date_envoi r))),
      notes_c = or_None (Some (or_empty (notes_c r)))\<rparr>"
  unfolding row_payload_def by (simp only: dict_of_export)

lemma set_columns_export:
  assumes "fields_ok r" and "titre (row_payload (dict_of headers (csv_cells r))) \<noteq> None"
  shows "set_columns (row_payload (dict_of headers (csv_cells r))) r = r"
proof -
  from assms(2) have "titre r \<noteq> Some []"
    by (auto simp: row_payload_export or_None_or_empty split: if_splits)
  with assms(1) show ?thesis
    by (cases r) (simp add: set_columns_def row_payload_export or_None_or_empty fields_ok_def)
qed

lemma map_same_key:
  assumes "distinct (map key xs)" and "r \<in> set xs" and "f r = r"
  shows "map (\<lambda>x. if key x = key r then f x else x) xs = xs"
proof -
  have "(if key x = key r then f x else x) = x" if "x \<in> set xs" for x
  proof (cases "key x = key r")
    case True
    with assms(1,2) that have "x = r" by (meson distinct_map inj_onD)
    with assms(3) show ?thesis by simp
  next
    case False
    then show ?thesis by simp
  qed
  then show ?thesis by (simp add: map_idI)
qed

lemma import_row_export:
  assumes w: "db w = Some t" and r: "r \<in> set (rows t)"
    and pk: "primary_key (rows t)" and ok: "fields_ok r"
  shows "db (import_row now (dict_of headers (csv_cells r)) w) = Some t"
proof -
  let ?row = "dict_of headers (csv_cells r)"
  let ?d = "row_payload ?row"
  have rid: "?row ''id'' = Some (str_int (id_val r))" by (rule dict_of_export)
  have ex: "list_ex (\<lambda>x. id_eq (Text (str_int (id_val r))) (id_val x)) (rows t)"
    using r by (auto simp: list_ex_iff id_eq_str_int)
  show ?thesis
  proof (cases "titre ?d = None")
    case True
    then have "sql_update ?d (Text (str_int (id_val r))) (db w) = (False, db w)"
      using w ex by (simp add: sql_update_def)
    moreover have "db (insert_row now ?d w) = db w"
      using True w by (simp add: insert_row_def sql_insert_def notify_def Let_def)
    ultimately show ?thesis
      using w rid by (simp add: import_row_def str_int_nonempty Let_def)
  next
    case False
    from set_columns_export [OF ok False] have sc: "set_columns ?d r = r" .
    have "map (\<lambda>x. if id_val x = id_val r then set_columns ?d x else x) (rows t) = rows t"
      using pk r sc unfolding primary_key_def by (rule map_same_key)
    then have "map (\<lambda>x. if id_eq (Text (str_int (id_val r))) (id_val x) then set_columns ?d x else x)
                 (rows t) = rows t"
      by (simp add: id_eq_str_int eq_commute)
    then have "sql_update ?d (Text (str_int (id_val r))) (db w) = (True, Some t)"
      using False w by (simp add: sql_update_def)
    then show ?thesis
      using rid by (simp add: import_row_def str_int_nonempty Let_def)
  qed
qed

lemma import_rows_export:
  assumes "db w = Some t" and "set rs \<subseteq> set (rows t)"
    and "primary_key (rows t)" and "list_all fields_ok rs"
  shows "db (import_rows now (map (\<lambda>r. dict_of headers (csv_cells r)) rs) w) = Some t"
  using assms
proof (induction rs arbitrary: w)
  case Nil
  then show ?case by simp
next
  case (Cons r rs)
  from Cons.prems have "db (import_row now (dict_of headers (csv_cells r)) w) = Some t"
    by (intro import_row_export) simp_all
  with Cons show ?case by simp
qed

lemma DictReader_export:
  "DictReader (headers # map csv_cells rs) = map (\<lambda>r. dict_of headers (csv_cells r)) rs"
proof -
  have "filter (\<lambda>cells. cells \<noteq> []) (map csv_cells rs) = map csv_cells rs"
    by (induction rs) (simp_all add: csv_cells_def)
  then show ?thesis by (simp add: DictReader_def)
qed

section \<open>Search texts without metacharacters\<close>

text \<open>
  On a pattern without metacharacters the engine of the fragment is the case-insensitive
  search of a substring: such a pattern is found in the fields of a record exactly when
  its lower-cased text occurs in their lower-cased concatenation.
\<close>

lemma lower_char_idem: "lower_char (lower_char c) = lower_char c"
proof -
  define n where "n = (of_char c :: nat)"
  define up where "up k \<longleftrightarrow> (65 \<le> k \<and> k \<le> 90) \<or> (192 \<le> k \<and> k \<le> 222 \<and> k \<noteq> 215)"
    for k :: nat
  have d: "lower_char x = (if up (of_char x) then char_of (of_char x + 32 :: nat) else x)" for x
    by (simp add: lower_char_def Let_def up_def)
  show ?thesis
  proof (cases "up n")
    case True
    then have 1: "lower_char c = char_of (n + 32)" by (simp add: d n_def)
    from True have "n + 32 < 256" by (auto simp: up_def)
    then have 2: "(of_char (char_of (n + 32)) :: nat) = n + 32" by simp
    from True have "\<not> up (n + 32)" by (auto simp: up_def)
    then have "lower_char (char_of (n + 32)) = char_of (n + 32)"
      by (simp only: d 2 if_False)
    with 1 show ?thesis by simp
  next
    case False
    then have "lower_char c = c" by (simp add: d n_def)
    then show ?thesis by simp
  qed
qed

lemma lower_idem: "lower (lower s) = lower s"
  by (simp add: lower_def lower_char_idem)

lemma lower_append: "lower (a @ b) = lower a @ lower b"
  by (simp add: lower_def)

lemma lower_space: "lower (CHR '' '' # s) = CHR '' '' # lower s"
proof -
  have "lower_char (CHR '' '') = CHR '' ''" by code_simp
  then show ?thesis by (simp add: lower_def)
qed

lemma lower_hay: "lower (hay R) = hay R"
  by (simp add: hay_def data_def lower_append lower_space lower_idem)

lemma parse_plain:
  "plain_text cs \<Longrightarrow>
     parse cs (alts, items, q) [] = Some (foldr Alt alts (mk_seq (rev (map Chr cs) @ items)))"
proof (induction cs arbitrary: items q)
  case Nil
  then show ?case by (simp add: close_frame_def)
next
  case (Cons c cs)
  from Cons.prems have c: "c \<noteq> CHR ''(''" "c \<noteq> CHR '')''" "c \<noteq> CHR ''|''" "c \<noteq> CHR ''*''"
      "c \<noteq> CHR ''.''" "\<not> unread_meta c" and cs: "plain_text cs"
    by (simp_all add: plain_text_def)
  from c have "parse (c # cs) (alts, items, q) [] = parse cs (alts, Chr c # items, False) []"
    by simp
  with Cons.IH [OF cs] show ?case by simp
qed

lemma mk_seq_rev: "mk_seq (rev (map Chr cs)) = lit cs"
  by (simp add: mk_seq_def lit_def foldl_conv_foldr foldr_map comp_def)

lemma rx_fragment_plain:
  "plain_text pat \<Longrightarrow> rx_fragment pat = Some (has_match (lit pat))"
  using parse_plain [of pat "[]" "[]" False]
  by (simp add: rx_fragment_def mk_seq_rev)

lemma match_prefix_Seq_Zero: "\<not> match_prefix (Seq Zero r) hs"
  by (induction hs) simp_all

lemma match_prefix_Alt: "match_prefix (Alt a b) hs \<longleftrightarrow> match_prefix a hs \<or> match_prefix b hs"
  by (induction hs arbitrary: a b) auto

lemma match_prefix_Seq_Eps: "match_prefix (Seq Eps r) hs \<longleftrightarrow> match_prefix r hs"
  by (cases hs) (simp_all add: match_prefix_Alt match_prefix_Seq_Zero)

lemma match_prefix_lit: "match_prefix (lit s) hs \<longleftrightarrow> prefix (lower s) (lower hs)"
proof (induction s arbitrary: hs)
  case Nil
  then show ?case by (cases hs) (simp_all add: lit_def lower_def)
next
  case (Cons c cs)
  have l: "lit (c # cs) = Seq (Chr c) (lit cs)" by (simp add: lit_def)
  show ?case
  proof (cases hs)
    case Nil
    then show ?thesis by (simp add: l lower_def)
  next
    case (Cons x xs)
    with Cons.IH [of xs] show ?thesis
      by (simp add: l lower_def match_prefix_Seq_Eps match_prefix_Seq_Zero)
  qed
qed

lemma has_match_lit:
  assumes "lower hs = hs"
  shows "has_match (lit s) hs \<longleftrightarrow> sublist (lower s) hs"
  using assms
proof (induction hs)
  case Nil
  then show ?case by (cases s) (simp_all add: lit_def lower_def)
next
  case (Cons x xs)
  then have "lower xs = xs" by (simp add: lower_def)
  with Cons.IH have "has_match (lit s) xs \<longleftrightarrow> sublist (lower s) xs" by simp
  moreover have "match_prefix (lit s) (x # xs) \<longleftrightarrow> prefix (lower s) (x # xs)"
    using match_prefix_lit [of s "x # xs"] Cons.prems by simp
  ultimately show ?case by (simp add: sublist_Cons_right)
qed

lemma plain_search_is_substring:
  assumes "plain_text pat" and "pat \<noteq> []"
  shows "filterAcceptsRow (set_search_text rx_fragment pat p) R \<longleftrightarrow>
           sublist (lower pat) (hay R) \<and> filterAcceptsRow (set_search_text rx_fragment [] p) R"
  using assms has_match_lit [OF lower_hay, of pat R]
  by (simp add: filterAcceptsRow_def set_search_text_def QRegularExpression_def hasMatch_def
        rx_fragment_plain)

section \<open>The filter predicate\<close>

text \<open>
  C6. With a non-empty \<open>max_deadline\<close> \<open>m\<close>, the filter accepts a record exactly when the
  search, the status filter and the priority filter accept it and the deadline
  sub-filter does not reject it: a record whose \<open>date_limite\<close> is \<open>d\<close> is rejected by the
  sub-filter if and only if \<open>d > m\<close> in the lexicographic order of strings, and a record
  without \<open>date_limite\<close> is never rejected by it.
\<close>

theorem max_deadline_filter:
  assumes "max_deadline p = Some m" and "m \<noteq> []"
  shows "filterAcceptsRow p R \<longleftrightarrow>
           (pattern (search_regex p) = [] \<or> hasMatch (search_regex p) (hay R))
           \<and> (case filter_statut p of None \<Rightarrow> True | Some s \<Rightarrow> data R statut = lower s)
           \<and> (case filter_priorite p of None \<Rightarrow> True | Some s \<Rightarrow> data R priorite = lower s)
           \<and> (case date_limite R of None \<Rightarrow> True | Some d \<Rightarrow> \<not> d > m)"
  using assms by (auto simp: filterAcceptsRow_def split: option.splits)

text \<open>
  With the maximum deadline 2025-01-31 and no other filter, the record due on
  2025-02-01 is rejected, the record due on 2025-01-10 is accepted and a record without
  deadline is accepted.
\<close>

theorem max_deadline_filter_witness:
  "max_deadline (set_max_deadline (Some ''2025-01-31'') (init_proxy rx_fragment))
     = Some ''2025-01-31''
   \<and> ''2025-01-31'' \<noteq> []
   \<and> date_limite sample_row = Some ''2025-02-01''
   \<and> \<not> filterAcceptsRow (set_max_deadline (Some ''2025-01-31'') (init_proxy rx_fragment))
          sample_row
   \<and> date_limite sample_due = Some ''2025-01-10''
   \<and> filterAcceptsRow (set_max_deadline (Some ''2025-01-31'') (init_proxy rx_fragment))
        sample_due
   \<and> filterAcceptsRow (set_max_deadline (Some ''2025-01-31'') (init_proxy rx_fragment))
        (sample_row\<lparr>date_limite := None\<rparr>)"
proof -
  let ?p = "set_max_deadline (Some ''2025-01-31'') (init_proxy rx_fragment)"
  have m: "max_deadline ?p = Some ''2025-01-31''" by (simp add: set_max_deadline_def)
  have n: "''2025-01-31'' \<noteq> []" by simp
  have o: "pattern (search_regex ?p) = []" "filter_statut ?p = None"
    "filter_priorite ?p = None"
    by (simp_all add: set_max_deadline_def init_proxy_def QRegularExpression_def)
  have d1: "date_limite sample_row = Some ''2025-02-01''" by (simp add: sample_row_def)
  have d2: "date_limite sample_due = Some ''2025-01-10''" by (simp add: sample_due_def)
  have r1: "\<not> filterAcceptsRow ?p sample_row"
    using max_deadline_filter [OF m n, of sample_row] by (simp add: o d1)
  have r2: "filterAcceptsRow ?p sample_due"
    using max_deadline_filter [OF m n, of sample_due] by (simp add: o d2)
  have r3: "filterAcceptsRow ?p (sample_row\<lparr>date_limite := None\<rparr>)"
    using max_deadline_filter [OF m n, of "sample_row\<lparr>date_limite := None\<rparr>"]
    by (simp add: o)
  from m n d1 d2 r1 r2 r3 show ?thesis by blast
qed

text \<open>
  C10. The search text is compiled as a regular expression: when a non-empty search
  text is not a valid regular expression, the filter rejects every record, whatever the
  record contains and whatever the other filters are.
\<close>

theorem invalid_regex_rejects_all:
  assumes "text \<noteq> []" and "rx text = None"
  shows "\<not> filterAcceptsRow (set_search_text rx text p) R"
  using assms
  by (simp add: filterAcceptsRow_def set_search_text_def QRegularExpression_def hasMatch_def)

text \<open>
  The unmatched \<open>(\<close> is such a text, and the sample record, whose title contains it
  literally, is rejected.
\<close>

theorem invalid_regex_rejects_all_witness:
  "''('' \<noteq> [] \<and> rx_fragment ''('' = None \<and> sublist ''('' (hay sample_row)
   \<and> \<not> filterAcceptsRow (set_search_text rx_fragment ''('' (init_proxy rx_fragment))
          sample_row"
proof -
  have a: "''('' \<noteq> []" by simp
  have b: "rx_fragment ''('' = None" by code_simp
  have c: "sublist ''('' (hay sample_row)" by code_simp
  from invalid_regex_rejects_all
         [of "''(''" rx_fragment "init_proxy rx_fragment" sample_row] a b c
  show ?thesis by blast
qed

text \<open>
  C2, as the spec states it, fails: the search text \<open>a.c\<close> does not occur in the
  lower-cased concatenation of the fields of the sample record, and the filter accepts
  the record, because \<open>.\<close> matches the \<open>b\<close> of its title.
\<close>

theorem search_substring_counterexample:
  "\<not> (filterAcceptsRow (set_search_text rx_fragment ''a.c'' (init_proxy rx_fragment))
         sample_row
       \<longleftrightarrow> sublist (lower ''a.c'') (hay sample_row))"
  by code_simp

text \<open>
  C2, amended. With a non-empty search text, the filter accepts a record if and only if
  the text is a valid regular expression that, matched case-insensitively, has a match
  somewhere in the lower-cased fields \<open>numero\<close>, \<open>titre\<close>, \<open>structure\<close>, \<open>priorite\<close>,
  \<open>canal_envoi\<close>, \<open>statut\<close>, \<open>notes\<close> joined by single spaces (an absent field being the
  empty string), and the other filters accept the record.
\<close>

theorem search_is_regex_match:
  assumes "text \<noteq> []"
  shows "filterAcceptsRow (set_search_text rx text p) R \<longleftrightarrow>
           (\<exists>m. rx text = Some m \<and> m (hay R))
           \<and> filterAcceptsRow (set_search_text rx [] p) R"
  using assms
  by (cases "rx text")
     (simp_all add: filterAcceptsRow_def set_search_text_def QRegularExpression_def
        hasMatch_def)

text \<open>
  The search text \<open>recom\<close> finds the sample record through its \<open>canal_envoi\<close>.
\<close>

theorem search_is_regex_match_witness:
  "''recom'' \<noteq> []
   \<and> filterAcceptsRow (set_search_text rx_fragment ''recom'' (init_proxy rx_fragment))
        sample_row"
proof -
  have a: "''recom'' \<noteq> []" by simp
  have "case rx_fragment ''recom'' of None \<Rightarrow> False | Some m \<Rightarrow> m (hay sample_row)"
    by code_simp
  then have b: "\<exists>m. rx_fragment ''recom'' = Some m \<and> m (hay sample_row)"
    by (cases "rx_fragment ''recom''") simp_all
  have c: "filterAcceptsRow (set_search_text rx_fragment [] (init_proxy rx_fragment)) R"
    for R
    by (simp add: filterAcceptsRow_def set_search_text_def init_proxy_def
          QRegularExpression_def)
  from search_is_regex_match
         [of "''recom''" rx_fragment "init_proxy rx_fragment" sample_row] a b c
  show ?thesis by blast
qed

section \<open>The count of the reminders\<close>

text \<open>
  C3, as the specification states it, fails: the count compares texts. After the import
  of a record with the counted status whose deadline is the text \<open>2025-01-1\<close>, the count
  on 2025-01-08 with a window of 3 days is 1, because
  \<open>2025-01-08 \<le> 2025-01-1 \<le> 2025-01-11\<close> holds of the texts, and the record has no
  deadline between 2025-01-08 and 2025-01-11.
\<close>

theorem count_non_iso_counterexample:
  "count_deadline_within 3 jan8 (import_csv (Some csv_loose_dates) noon empty_window)
   \<noteq> Inr (DueSoonCount
            (records (db (import_csv (Some csv_loose_dates) noon empty_window))) 3 jan8)"
  by code_simp

text \<open>
  C3, amended. When every deadline of the record set is an ISO date,
  \<open>count_deadline_within\<close> returns exactly the number of records whose status is the
  first of \<open>STATUTS\<close>, whose \<open>date_limite\<close> is present and satisfies
  \<open>asOf \<le> date_limite \<le> asOf + windowDays\<close> on calendar dates, both bounds included. The
  reference date is a date that exists and the end of the window does not pass the last
  date Python represents.
\<close>

theorem count_deadline_within_spec:
  assumes "valid_date today" and "add_days today days = Some lim"
    and "iso_deadlines (records (db w))"
  shows "count_deadline_within days today w = Inr (DueSoonCount (records (db w)) days today)"
proof (cases "db w")
  case None
  then show ?thesis
    using assms(2)
    by (simp add: count_deadline_within_def sql_count_due_def DueSoonCount_def records_def)
next
  case (Some t)
  have "filter (due_row (strftime today) (strftime lim)) (rows t)
          = filter (due_soon_spec today days) (rows t)"
  proof (rule filter_cong [OF refl])
    fix r assume "r \<in> set (rows t)"
    with assms(3) Some
    have "case date_limite r of None \<Rightarrow> True | Some s \<Rightarrow> iso_date s \<noteq> None"
      by (simp add: iso_deadlines_def records_def list_all_iff)
    from due_row_spec [OF assms(1) assms(2) this]
    show "due_row (strftime today) (strftime lim) r = due_soon_spec today days r" .
  qed
  with Some assms(2) show ?thesis
    by (simp add: count_deadline_within_def sql_count_due_def DueSoonCount_def records_def)
qed

text \<open>
  The scenario of the specification: on 2025-01-08 with a window of 3 days, the record
  with the deadline 2025-01-10 and the counted status is counted, the same record with
  the status sent is not.
\<close>

theorem count_deadline_within_spec_witness:
  "valid_date jan8
   \<and> add_days jan8 3 = Some \<lparr>year = 2025, month = 1, day = 11\<rparr>
   \<and> iso_deadlines (records (db sample_window))
   \<and> records (db sample_window) = [sample_due, sample_sent]
   \<and> due_soon_spec jan8 3 sample_due \<and> \<not> due_soon_spec jan8 3 sample_sent
   \<and> count_deadline_within 3 jan8 sample_window = Inr 1"
proof -
  have a: "valid_date jan8" by code_simp
  have b: "add_days jan8 3 = Some \<lparr>year = 2025, month = 1, day = 11\<rparr>" by code_simp
  have c: "iso_deadlines (records (db sample_window))" by code_simp
  have d: "DueSoonCount (records (db sample_window)) 3 jan8 = 1" by code_simp
  have e: "due_soon_spec jan8 3 sample_due \<and> \<not> due_soon_spec jan8 3 sample_sent"
    by code_simp
  have f: "records (db sample_window) = [sample_due, sample_sent]"
    by (simp add: sample_window_def init_window_def records_def)
  from count_deadline_within_spec [OF a b c] d
  have "count_deadline_within 3 jan8 sample_window = Inr 1" by simp
  with a b c e f show ?thesis by blast
qed

text \<open>
  C8. For a fixed record set and a fixed reference date, the count does not decrease
  when the window grows: for \<open>w1 \<le> w2\<close>, both counts are returned and the first is at
  most the second.
\<close>

theorem count_deadline_within_mono:
  assumes "valid_date today" and "w1 \<le> w2" and "add_days today w2 = Some l2"
  shows "\<exists>n1 n2. count_deadline_within w1 today w = Inr n1
           \<and> count_deadline_within w2 today w = Inr n2 \<and> n1 \<le> n2"
proof -
  from add_days_mono [OF assms] obtain l1
    where l1: "add_days today w1 = Some l1" and v1: "valid_date l1" and le: "date_le l1 l2"
    by blast
  from add_days_valid [OF assms(1) assms(3)] have v2: "valid_date l2" by simp
  from strftime_le_iff [OF v1 v2] le have s: "strftime l1 \<le> strftime l2" by simp
  show ?thesis
  proof (cases "db w")
    case None
    with l1 assms(3) show ?thesis
      by (simp add: count_deadline_within_def sql_count_due_def)
  next
    case (Some t)
    have "due_row (strftime today) (strftime l1) r \<Longrightarrow> due_row (strftime today) (strftime l2) r"
      for r
      using s by (auto simp: due_row_def split: option.splits)
    then have "length (filter (due_row (strftime today) (strftime l1)) (rows t))
                 \<le> length (filter (due_row (strftime today) (strftime l2)) (rows t))"
      by (rule length_filter_mono)
    with Some l1 assms(3) show ?thesis
      by (simp add: count_deadline_within_def sql_count_due_def)
  qed
qed

theorem count_deadline_within_mono_witness:
  "valid_date jan8 \<and> (1::nat) \<le> 3
   \<and> add_days jan8 3 = Some \<lparr>year = 2025, month = 1, day = 11\<rparr>
   \<and> count_deadline_within 1 jan8 sample_window = Inr 0
   \<and> count_deadline_within 3 jan8 sample_window = Inr 1
   \<and> (\<exists>n1 n2. count_deadline_within 1 jan8 sample_window = Inr n1
          \<and> count_deadline_within 3 jan8 sample_window = Inr n2 \<and> n1 \<le> n2)"
proof -
  have a: "valid_date jan8" by code_simp
  have b: "(1::nat) \<le> 3" by simp
  have c: "add_days jan8 3 = Some \<lparr>year = 2025, month = 1, day = 11\<rparr>" by code_simp
  have d: "count_deadline_within 1 jan8 sample_window = Inr 0" by code_simp
  have e: "count_deadline_within 3 jan8 sample_window = Inr 1" by code_simp
  from count_deadline_within_mono [OF a b c, of sample_window] a b c d e
  show ?thesis by blast
qed

text \<open>
  C9. When the count query fails, \<open>count_deadline_within\<close> returns 0 and raises nothing,
  and \<open>update_reminders\<close> leaves the label empty.
\<close>

theorem count_query_failure:
  assumes "add_days today days = Some lim"
    and "sql_count_due (strftime today) (strftime lim) (db w) = None"
  shows "count_deadline_within days today w = Inr 0
         \<and> (days = remind_days w \<longrightarrow> update_reminders today w = Inr (w\<lparr>lbl_alerts := Quiet\<rparr>))"
  using assms by (auto simp: count_deadline_within_def update_reminders_def)

text \<open>
  The query fails on a file that has no table \<open>candidatures\<close>.
\<close>

theorem count_query_failure_witness:
  "add_days jan8 3 = Some \<lparr>year = 2025, month = 1, day = 11\<rparr>
   \<and> sql_count_due (strftime jan8) (strftime \<lparr>year = 2025, month = 1, day = 11\<rparr>)
        (db (sample_window\<lparr>db := None\<rparr>)) = None
   \<and> count_deadline_within 3 jan8 (sample_window\<lparr>db := None\<rparr>) = Inr 0
   \<and> update_reminders jan8 (sample_window\<lparr>db := None\<rparr>)
       = Inr (sample_window\<lparr>db := None, lbl_alerts := Quiet\<rparr>)"
proof -
  let ?w = "sample_window\<lparr>db := None\<rparr>"
  have a: "add_days jan8 3 = Some \<lparr>year = 2025, month = 1, day = 11\<rparr>" by code_simp
  have b: "sql_count_due (strftime jan8) (strftime \<lparr>year = 2025, month = 1, day = 11\<rparr>)
             (db ?w) = None"
    by (simp add: sql_count_due_def)
  have c: "3 = remind_days ?w" by (simp add: sample_window_def init_window_def)
  from count_query_failure [OF a b] c a b show ?thesis by simp
qed

section \<open>Export and import\<close>

text \<open>
  C5, as the specification states it, fails: a row whose \<open>notes\<close> is the empty text is
  exported as an empty cell, which the import reads as absent, so that \<open>notes\<close> is NULL
  after the round trip.
\<close>

theorem roundtrip_counterexample:
  "db (import_csv (fst (export_csv True sample_empty_notes)) noon
         (snd (export_csv True sample_empty_notes)))
   \<noteq> db sample_empty_notes"
  by code_simp

text \<open>
  C5, amended. When no optional text column of the table holds the empty text,
  exporting the rows of the model and importing the file unchanged leaves the table as
  it was, in every column, \<open>created_at\<close> included, and in its id counter. The ids are
  those of a primary key and the model holds rows of the table, as it does after the
  \<open>select()\<close> that every operation of the window ends with.
\<close>

theorem export_import_roundtrip:
  assumes "primary_key (records (db w))" and "no_empty_text (records (db w))"
    and "set (model w) \<subseteq> set (records (db w))"
  shows "db (import_csv (fst (export_csv True w)) now (snd (export_csv True w))) = db w
         \<and> model (import_csv (fst (export_csv True w)) now (snd (export_csv True w)))
             = first_fetch (records (db w))"
proof -
  let ?w' = "notify Exporte w"
  let ?rs = "map (\<lambda>r. dict_of headers (csv_cells r)) (model w)"
  have e: "export_csv True w = (Some (headers # map csv_cells (model w)), ?w')"
    by (simp add: export_csv_def)
  have i: "import_csv (fst (export_csv True w)) now (snd (export_csv True w))
             = notify Import_termine (select (import_rows now ?rs ?w'))"
    by (simp add: e import_csv_def DictReader_export)
  have d: "db (import_rows now ?rs ?w') = db w"
  proof (cases "db w")
    case None
    with assms(3) have "model w = []" by (simp add: records_def)
    with None show ?thesis by (simp add: notify_def)
  next
    case (Some t)
    with assms have m: "set (model w) \<subseteq> set (rows t)" and pk: "primary_key (rows t)"
      and "list_all fields_ok (rows t)"
      by (simp_all add: records_def no_empty_text_def)
    then have ok: "list_all fields_ok (model w)"
      by (auto simp: list_all_iff)
    have "db ?w' = Some t" using Some by (simp add: notify_def)
    from import_rows_export [OF this m pk ok, of now] Some show ?thesis by simp
  qed
  then show ?thesis
    by (simp add: i notify_def select_def)
qed

theorem export_import_roundtrip_witness:
  "primary_key (records (db sample_window)) \<and> no_empty_text (records (db sample_window))
   \<and> set (model sample_window) \<subseteq> set (records (db sample_window))
   \<and> db (import_csv (fst (export_csv True sample_window)) noon
            (snd (export_csv True sample_window))) = db sample_window"
proof -
  have a: "primary_key (records (db sample_window))" by code_simp
  have b: "no_empty_text (records (db sample_window))" by code_simp
  have c: "set (model sample_window) \<subseteq> set (records (db sample_window))"
    by (simp add: sample_window_def init_window_def first_fetch_def set_take_subset)
  from export_import_roundtrip [OF a b c, of noon] a b c show ?thesis by blast
qed

section \<open>The import of one row\<close>

lemma import_row_unknown_id:
  assumes "db w = Some t" and "row ''id'' = Some rid" and "rid \<noteq> []"
    and "\<not> list_ex (\<lambda>r. id_eq (Text rid) (id_val r)) (rows t)"
  shows "import_row now row w = w"
proof -
  have "map (\<lambda>r. if id_eq (Text rid) (id_val r) then set_columns (row_payload row) r else r)
          (rows t) = rows t"
    using assms(4) by (intro map_idI) (auto simp: list_ex_iff)
  then have "sql_update (row_payload row) (Text rid) (db w) = (True, db w)"
    using assms(1,4) by (simp add: sql_update_def)
  then show ?thesis using assms(2,3) by (simp add: import_row_def Let_def)
qed

lemma import_row_no_id:
  assumes "row ''id'' = None \<or> row ''id'' = Some []"
  shows "import_row now row w = insert_row now (row_payload row) w"
  using assms by (auto simp: import_row_def Let_def)

lemma insert_row_NULL_titre:
  assumes "titre d = None"
  shows "insert_row now d w = notify Erreur_insertion w"
  using assms by (simp add: insert_row_def sql_insert_def Let_def split: option.splits)

lemma get_data_blank_titre:
  assumes "strip (f_titre f) = []"
  shows "get_data f = None" and "add_record (Accepted f) now w = notify Titre_obligatoire w"
  using assms by (simp_all add: get_data_def add_record_def)

text \<open>
  C1. A row whose \<open>id\<close> is 7 is imported into the empty table. No row has the id 7, so
  the row should be inserted; the UPDATE changes no row and succeeds, the fall-back to
  \<open>_insert_row\<close> is not taken and the table stays empty.
\<close>

theorem import_unknown_id_not_inserted:
  "records (db empty_window) = []
   \<and> map (\<lambda>row. row ''id'') (DictReader csv_id7) = [Some ''7'']
   \<and> records (db (import_csv (Some csv_id7) noon empty_window)) = []
   \<and> shown (import_csv (Some csv_id7) noon empty_window) = [Import_termine]"
  by code_simp

text \<open>
  C7. A row without \<open>id\<close> whose \<open>titre\<close> is three spaces, empty after trimming, is
  imported into the empty table: the insert succeeds and the table holds a record with
  that title.
\<close>

theorem import_blank_titre_inserted:
  "strip ''   '' = []
   \<and> map titre (records (db (import_csv (Some csv_blank_titre) noon empty_window)))
       = [Some ''   '']
   \<and> shown (import_csv (Some csv_blank_titre) noon empty_window) = [Import_termine]"
  by code_simp

section \<open>The reminders\<close>

lemma count_lbl_alerts:
  "count_deadline_within days today (w\<lparr>lbl_alerts := a\<rparr>) = count_deadline_within days today w"
  by (simp add: count_deadline_within_def split: option.splits)

lemma update_reminders_current:
  assumes "update_reminders today w = Inr w'"
  shows "label_current today w' \<and> remind_days w' = remind_days w \<and> db w' = db w"
proof -
  from assms obtain n where n: "count_deadline_within (remind_days w) today w = Inr n"
    and w': "w' = w\<lparr>lbl_alerts := (if n > 0 then Alerting n (remind_days w) else Quiet)\<rparr>"
    by (auto simp: update_reminders_def split: sum.splits)
  have "count_deadline_within (remind_days w') today w' = Inr n"
    using n unfolding w' by (simp only: count_lbl_alerts) simp
  then show ?thesis by (simp add: label_current_def) (simp add: w')
qed

lemma lbl_insert_row: "lbl_alerts (insert_row now d w) = lbl_alerts w"
  by (simp add: insert_row_def notify_def split: prod.splits bool.splits)

lemma lbl_update_row: "lbl_alerts (update_row row d w) = lbl_alerts w"
  by (simp add: update_row_def notify_def Let_def split: prod.splits bool.splits)

lemma lbl_add_record: "lbl_alerts (add_record dlg now w) = lbl_alerts w"
  by (simp add: add_record_def notify_def select_def lbl_insert_row
        split: dialog_result.splits option.splits)

lemma lbl_edit_selected: "lbl_alerts (edit_selected sel dlg w) = lbl_alerts w"
  by (simp add: edit_selected_def notify_def select_def lbl_update_row
        split: dialog_result.splits option.splits)

lemma lbl_delete_selected: "lbl_alerts (delete_selected sel confirm w) = lbl_alerts w"
  by (simp add: delete_selected_def notify_def select_def
        split: option.splits prod.splits bool.splits)

lemma lbl_import_row: "lbl_alerts (import_row now row w) = lbl_alerts w"
  by (simp add: import_row_def lbl_insert_row Let_def
        split: option.splits prod.splits bool.splits)

lemma lbl_import_rows: "lbl_alerts (import_rows now rs w) = lbl_alerts w"
  by (induction rs arbitrary: w) (simp_all add: lbl_import_row)

lemma lbl_import_csv: "lbl_alerts (import_csv file now w) = lbl_alerts w"
  by (simp add: import_csv_def notify_def select_def lbl_import_rows split: option.splits)

lemma lbl_export_csv: "lbl_alerts (snd (export_csv chosen w)) = lbl_alerts w"
  by (simp add: export_csv_def notify_def)


text \<open>
  C4, as the specification states it, fails: after a record that is due in two days is
  added through the dialog to the empty table, the count is 1 and the label is still
  empty. \<open>add_record\<close> does not call \<open>update_reminders\<close>.
\<close>

theorem reminders_stale_counterexample:
  "\<not> (lbl_alerts (add_record (Accepted sample_form) noon empty_window) = Quiet
       \<longleftrightarrow> count_deadline_within
             (remind_days (add_record (Accepted sample_form) noon empty_window)) jan8
             (add_record (Accepted sample_form) noon empty_window) = Inr 0)"
  by code_simp

text \<open>
  C4, amended. The label is evaluated on each tick of the timer and on each change of
  the window in days, and on nothing else: right after such an event the label is
  empty exactly when the count is 0 and shows the count and the window when the count
  is positive; adding, editing, deleting, importing and exporting leave the label as
  it was.
\<close>

theorem reminders_evaluated_on_tick:
  assumes "step ev w = Inr w'"
  shows "case ev of
           Tick today \<Rightarrow> label_current today w'
         | Remind_days_changed days today \<Rightarrow> remind_days w' = days \<and> label_current today w'
         | _ \<Rightarrow> lbl_alerts w' = lbl_alerts w"
proof (cases ev)
  case (Tick today)
  with assms update_reminders_current [of today w w'] show ?thesis by simp
next
  case (Remind_days_changed days today)
  with assms update_reminders_current [of today "w\<lparr>remind_days := days\<rparr>" w']
  show ?thesis by (simp add: on_remind_days_changed_def)
next
  case (Add_record dlg now)
  with assms show ?thesis by (auto simp: lbl_add_record)
next
  case (Edit_selected sel dlg)
  with assms show ?thesis by (auto simp: lbl_edit_selected)
next
  case (Delete_selected sel confirm)
  with assms show ?thesis by (auto simp: lbl_delete_selected)
next
  case (Import_csv f now)
  with assms show ?thesis by (auto simp: lbl_import_csv)
next
  case (Export_csv chosen)
  with assms show ?thesis by (auto simp: lbl_export_csv)
qed

text \<open>
  The next tick after the record was added shows one deadline within 3 days.
\<close>

theorem reminders_evaluated_on_tick_witness:
  "step (Tick jan8) (add_record (Accepted sample_form) noon empty_window)
     = Inr (add_record (Accepted sample_form) noon empty_window\<lparr>lbl_alerts := Alerting 1 3\<rparr>)
   \<and> label_current jan8
        (add_record (Accepted sample_form) noon empty_window\<lparr>lbl_alerts := Alerting 1 3\<rparr>)"
proof -
  let ?w = "add_record (Accepted sample_form) noon empty_window"
  have c: "count_deadline_within 3 jan8 ?w = Inr 1" by code_simp
  have r: "remind_days ?w = 3" by code_simp
  have s: "step (Tick jan8) ?w = Inr (?w\<lparr>lbl_alerts := Alerting 1 3\<rparr>)"
    by (simp add: update_reminders_def c r)
  from reminders_evaluated_on_tick [OF s] s show ?thesis by simp
qed

end
